theory Spec2Isabelle
  imports Main "HOL-Library.Word" "HOL-Library.AList" "HOL-Library.Multiset"
    "HOL-Library.List_Lexorder" "HOL-Library.Char_ord"
begin

section \<open>The proposal bot: state, registry, watermark, poller and persistence\<close>

text \<open>
  A shallow embedding of \<^verbatim>\<open>main.go\<close>. Go's \<^verbatim>\<open>uint64\<close> and \<^verbatim>\<open>int64\<close> are 64-bit
  words (chat identifiers are only ever compared for equality and used as map keys, so
  their sign plays no role). Go strings are byte sequences and \<^verbatim>\<open>len\<close> counts bytes:
  they are \<open>string\<close>, whose \<open>length\<close> counts bytes too.

  A Go map is an association list with pairwise distinct keys. The order of the list
  stands for the order in which a \<^verbatim>\<open>range\<close> loop happens to visit the map, which Go
  leaves unspecified: the theorems below hold for every list, hence for every order.
  An assignment \<^verbatim>\<open>m[k] = v\<close> is \<open>AList.update\<close>, \<^verbatim>\<open>delete(m, k)\<close> is \<open>AList.delete\<close>,
  \<^verbatim>\<open>len(m)\<close> is the length of the list. A \<^verbatim>\<open>nil\<close> inner map (which only a snapshot file
  holding \<^verbatim>\<open>null\<close> can produce) is \<open>None\<close>.

  Calls of \<^verbatim>\<open>log.Println\<close> and \<^verbatim>\<open>fmt.Println\<close> change nothing and are left out;
  \<^verbatim>\<open>log.Fatal\<close>, which exits the process, and a nil-pointer panic are error values. The
  mutex is left out: every operation holds it for its whole read or update, so each
  operation is one atomic step of the state. The source's parameter \<^verbatim>\<open>id\<close> is written
  \<open>cid\<close> for a chat and \<open>pid\<close> for a proposal, \<open>id\<close> being HOL's identity function.
\<close>

subsection \<open>Configuration\<close>

type_synonym uint64 = "64 word"
type_synonym int64 = "64 word"

definition STATE_PATH :: string where
  "STATE_PATH = ''state.json''"

definition MAX_TOPIC_LENGTH :: nat where
  "MAX_TOPIC_LENGTH = 50"

definition MAX_BLOCKED_TOPICS :: nat where
  "MAX_BLOCKED_TOPICS = 30"

definition MAX_SUMMARY_LENGTH :: nat where
  "MAX_SUMMARY_LENGTH = 2048"

definition TOPIC_GOVERNANCE :: string where
  "TOPIC_GOVERNANCE = ''Governance''"

definition ALL_EXCEPT_GOVERNANCE :: string where
  "ALL_EXCEPT_GOVERNANCE = ''AllButGovernance''"

subsection \<open>Data\<close>

record Proposal =
  Title :: string
  Topic :: string
  Id_p :: uint64
  Summary :: string
  Proposer :: uint64

text \<open>\<^verbatim>\<open>map[string]bool\<close>: the blocked labels of one chat.\<close>

type_synonym blacklist = "(string \<times> bool) list"

record State =
  LastSeenProposal :: uint64
  ChatIds :: "(int64 \<times> blacklist option) list"

text \<open>
  \<^verbatim>\<open>s.ChatIds[id]\<close>: the inner map of a chat, \<^verbatim>\<open>nil\<close> when the key is absent (or when
  the entry itself is \<^verbatim>\<open>nil\<close>).
\<close>

definition ChatIds_at :: "State \<Rightarrow> int64 \<Rightarrow> blacklist option" where
  "ChatIds_at s cid = (case map_of (ChatIds s) cid of None \<Rightarrow> None | Some m \<Rightarrow> m)"

text \<open>\<^verbatim>\<open>blacklist[topic]\<close> on a \<^verbatim>\<open>map[string]bool\<close>: \<^verbatim>\<open>false\<close> for an absent key.\<close>

definition flag_at :: "blacklist \<Rightarrow> string \<Rightarrow> bool" where
  "flag_at m topic = (case map_of m topic of None \<Rightarrow> False | Some b \<Rightarrow> b)"

text \<open>The representation invariant of the two levels of maps: keys are pairwise distinct.\<close>

definition distinct_keys :: "State \<Rightarrow> bool" where
  "distinct_keys s \<longleftrightarrow>
     distinct (map fst (ChatIds s)) \<and>
     list_all (\<lambda>(cid, m). case m of None \<Rightarrow> True | Some bl \<Rightarrow> distinct (map fst bl)) (ChatIds s)"

subsection \<open>Watermark\<close>

text \<open>\<^verbatim>\<open>setNewLastSeenId\<close>: the new state and the result \<^verbatim>\<open>updated\<close>.\<close>

definition setNewLastSeenId :: "State \<Rightarrow> uint64 \<Rightarrow> State \<times> bool" where
  "setNewLastSeenId s pid =
     (if LastSeenProposal s < pid then (s\<lparr>LastSeenProposal := pid\<rparr>, True) else (s, False))"

text \<open>A finite sequence of calls: the final state and the result of each call, in order.\<close>

fun setNewLastSeenId_calls :: "State \<Rightarrow> uint64 list \<Rightarrow> State \<times> bool list" where
  "setNewLastSeenId_calls s [] = (s, [])"
| "setNewLastSeenId_calls s (pid # ids) =
     (case setNewLastSeenId s pid of
        (s1, updated) \<Rightarrow>
          (case setNewLastSeenId_calls s1 ids of (s2, rs) \<Rightarrow> (s2, updated # rs)))"

subsection \<open>Registry\<close>

definition removeChatId :: "State \<Rightarrow> int64 \<Rightarrow> State" where
  "removeChatId s cid = s\<lparr>ChatIds := AList.delete cid (ChatIds s)\<rparr>"

definition addChatId :: "State \<Rightarrow> int64 \<Rightarrow> State" where
  "addChatId s cid = s\<lparr>ChatIds := AList.update cid (Some []) (ChatIds s)\<rparr>"

text \<open>
  \<^verbatim>\<open>blockTopic\<close> writes into the inner map the chat's entry refers to; in the model the
  entry is replaced by the updated inner map, at its place.
\<close>

definition blockTopic :: "State \<Rightarrow> int64 \<Rightarrow> string \<Rightarrow> State" where
  "blockTopic s cid topic =
     (if length topic > MAX_TOPIC_LENGTH then s
      else case ChatIds_at s cid of
        None \<Rightarrow> s
      | Some blacklist \<Rightarrow>
          if length blacklist < MAX_BLOCKED_TOPICS
          then s\<lparr>ChatIds := AList.update cid (Some (AList.update topic True blacklist)) (ChatIds s)\<rparr>
          else s)"

definition unblockTopic :: "State \<Rightarrow> int64 \<Rightarrow> string \<Rightarrow> State" where
  "unblockTopic s cid topic =
     (case ChatIds_at s cid of
        None \<Rightarrow> s
      | Some blacklist \<Rightarrow>
          s\<lparr>ChatIds := AList.update cid (Some (AList.delete topic blacklist)) (ChatIds s)\<rparr>)"

text \<open>The \<^verbatim>\<open>range\<close> loop of \<^verbatim>\<open>chatIdsForTopic\<close>, with its two \<^verbatim>\<open>continue\<close> branches.\<close>

fun range_ChatIds :: "(int64 \<times> blacklist option) list \<Rightarrow> string \<Rightarrow> int64 list" where
  "range_ChatIds [] topic = []"
| "range_ChatIds ((cid, m) # rest) topic =
     (case m of
        None \<Rightarrow> range_ChatIds rest topic
      | Some blacklist \<Rightarrow>
          if flag_at blacklist topic then range_ChatIds rest topic
          else if flag_at blacklist ALL_EXCEPT_GOVERNANCE \<and> topic \<noteq> TOPIC_GOVERNANCE
          then range_ChatIds rest topic
          else cid # range_ChatIds rest topic)"

definition chatIdsForTopic :: "State \<Rightarrow> string \<Rightarrow> int64 list" where
  "chatIdsForTopic s topic = range_ChatIds (ChatIds s) topic"

text \<open>\<^verbatim>\<open>strings.Join\<close>.\<close>

fun join :: "string list \<Rightarrow> string \<Rightarrow> string" where
  "join [] sep = []"
| "join [x] sep = x"
| "join (x # y # ys) sep = x @ sep @ join (y # ys) sep"

text \<open>The loop of \<^verbatim>\<open>blockedTopics\<close> collecting the enabled labels into \<^verbatim>\<open>res\<close>.\<close>

fun enabled_topics :: "blacklist \<Rightarrow> string list" where
  "enabled_topics [] = []"
| "enabled_topics ((topic, enabled) # rest) =
     (if enabled then topic # enabled_topics rest else enabled_topics rest)"

definition blockedTopics :: "State \<Rightarrow> int64 \<Rightarrow> string" where
  "blockedTopics s cid =
     (case ChatIds_at s cid of
        None \<Rightarrow> ''Your list of blocked topics is empty.''
      | Some m \<Rightarrow>
          if length m = 0 then ''Your list of blocked topics is empty.''
          else ''You've blocked these topics: '' @ join (enabled_topics m) '', '' @ ''.'')"

subsection \<open>Persistence\<close>

datatype error = LogFatal | NilPointerPanic

text \<open>The files of the working directory: path to content.\<close>

type_synonym files = "string \<rightharpoonup> string"

text \<open>
  What \<^verbatim>\<open>os.WriteFile\<close> does to the file it is given: it writes all the data, or it
  returns an error after some number of bytes (possibly none) have reached the file.
\<close>

datatype write_outcome = WriteOk | WriteError nat

text \<open>
  \<^verbatim>\<open>State.persist\<close>. The calls into the library and the operating system are taken with
  their outcome: \<open>marshal\<close> is \<^verbatim>\<open>json.Marshal\<close> (\<open>None\<close> for an error), \<open>tmp\<close> is the name
  of the file \<^verbatim>\<open>ioutil.TempFile\<close> creates, empty (\<open>None\<close> for an error), \<open>w\<close> is the
  outcome of \<^verbatim>\<open>os.WriteFile\<close>, and \<open>renamed\<close> tells whether \<^verbatim>\<open>os.Rename\<close>, whose result
  the source drops, takes place.
\<close>

definition persist ::
  "(State \<Rightarrow> string option) \<Rightarrow> string option \<Rightarrow> write_outcome \<Rightarrow> bool \<Rightarrow>
   State \<Rightarrow> files \<Rightarrow> error + files" where
  "persist marshal tmp w renamed s fs =
     (case marshal s of
        None \<Rightarrow> Inr fs
      | Some data \<Rightarrow>
          (case tmp of
             None \<Rightarrow> Inl LogFatal
           | Some tmpFile \<Rightarrow>
               let written = (case w of WriteOk \<Rightarrow> data | WriteError n \<Rightarrow> take n data);
                   fs1 = fs(tmpFile \<mapsto> written)
               in Inr (if renamed then (fs1(tmpFile := None))(STATE_PATH \<mapsto> written) else fs1)))"

subsection \<open>Rendering a proposal\<close>

text \<open>The verb \<^verbatim>\<open>%d\<close> of \<^verbatim>\<open>fmt.Sprintf\<close> on an unsigned number.\<close>

definition digit :: "nat \<Rightarrow> char" where
  "digit n = ''0123456789'' ! n"

function decimal :: "nat \<Rightarrow> string" where
  "decimal n = (if n < 10 then [digit n] else decimal (n div 10) @ [digit (n mod 10)])"
  by pat_completeness auto
termination
  by (relation "measure (\<lambda>n. n)") auto

text \<open>Lines 267 to 273: the summary as it goes into the message.\<close>

definition summary_block :: "string \<Rightarrow> string" where
  "summary_block summary0 =
     (let summary = (if length summary0 + 2 > MAX_SUMMARY_LENGTH
                     then ''[Proposal summary is too long.]'' else summary0)
      in if length summary > 0 then ''\<newline>'' @ summary @ ''\<newline>'' else summary)"

text \<open>Lines 274 and 275: the \<^verbatim>\<open>fmt.Sprintf\<close> call.\<close>

definition message_text :: "Proposal \<Rightarrow> string" where
  "message_text proposal =
     ''<b>'' @ Title proposal @ ''</b>\<newline>\<newline>Proposer: '' @ decimal (unat (Proposer proposal)) @
     ''\<newline>'' @ summary_block (Summary proposal) @ ''\<newline>#'' @ Topic proposal @
     ''\<newline>\<newline>https://nns.ic0.app/proposal/?proposal='' @ decimal (unat (Id_p proposal))"

subsection \<open>Feed poller and dispatch\<close>

text \<open>\<^verbatim>\<open>strings.Contains\<close>.\<close>

fun has_prefix :: "string \<Rightarrow> string \<Rightarrow> bool" where
  "has_prefix s [] = True"
| "has_prefix [] (c # cs) = False"
| "has_prefix (x # xs) (c # cs) = (x = c \<and> has_prefix xs cs)"

fun contains :: "string \<Rightarrow> string \<Rightarrow> bool" where
  "contains [] substr = has_prefix [] substr"
| "contains (x # xs) substr = (has_prefix (x # xs) substr \<or> contains xs substr)"

text \<open>The result of \<^verbatim>\<open>bot.Send\<close>: no error, or an error with its text.\<close>

datatype send_result = Sent | SendError string

text \<open>
  Lines 278 to 289: one message per chat of \<^verbatim>\<open>ids\<close>; a chat whose delivery fails with
  the bot-was-blocked text is removed. The delivery collaborator is the parameter \<open>send\<close>.
\<close>

fun send_all :: "(int64 \<Rightarrow> string \<Rightarrow> send_result) \<Rightarrow> State \<Rightarrow> string \<Rightarrow> int64 list \<Rightarrow> State" where
  "send_all send s text [] = s"
| "send_all send s text (cid # ids) =
     (case send cid text of
        Sent \<Rightarrow> send_all send s text ids
      | SendError err \<Rightarrow>
          if contains err ''bot was blocked by the user''
          then send_all send (removeChatId s cid) text ids
          else send_all send s text ids)"

text \<open>What the poller hands to the delivery collaborator for one admitted proposal.\<close>

record dispatch =
  d_proposal :: Proposal
  d_text :: string
  d_ids :: "int64 list"

text \<open>Lines 262 to 293: the loop over the sorted proposals.\<close>

fun notify :: "(int64 \<Rightarrow> string \<Rightarrow> send_result) \<Rightarrow> State \<Rightarrow> Proposal list \<Rightarrow> State \<times> dispatch list" where
  "notify send s [] = (s, [])"
| "notify send s (proposal # rest) =
     (case setNewLastSeenId s (Id_p proposal) of
        (s1, False) \<Rightarrow> notify send s1 rest
      | (s1, True) \<Rightarrow>
          let text = message_text proposal;
              ids = chatIdsForTopic s1 (Topic proposal);
              s2 = send_all send s1 text ids
          in case notify send s2 rest of
               (s3, ds) \<Rightarrow> (s3, \<lparr>d_proposal = proposal, d_text = text, d_ids = ids\<rparr> # ds))"

text \<open>
  The \<^verbatim>\<open>*http.Response\<close> of \<^verbatim>\<open>http.Get\<close>, as far as the poller uses it: the bytes
  \<^verbatim>\<open>ioutil.ReadAll\<close> returns for its body, and whether it returns an error with them.
\<close>

datatype response = Response string bool

text \<open>
  The pair \<^verbatim>\<open>http.Get\<close> returns: the response (\<open>None\<close> for \<^verbatim>\<open>nil\<close>) and whether the error
  is set. The library returns a \<^verbatim>\<open>nil\<close> response with every error but that of a
  redirect policy.
\<close>

datatype fetched = Fetched "response option" bool

text \<open>
  One tick of \<^verbatim>\<open>fetchProposalsAndNotify\<close> (the body of the \<^verbatim>\<open>for range ticker.C\<close> loop).
  \<open>sorter\<close> is \<^verbatim>\<open>sort.Slice\<close> with the comparison of line 260 (its contract: some
  rearrangement of the slice, ascending by identifier; the sort is not stable, so the
  order of proposals with equal identifiers is left open), \<open>unmarshal\<close> is
  \<^verbatim>\<open>json.Unmarshal\<close> into a slice of proposals (\<open>None\<close> for an error). Reading
  \<^verbatim>\<open>resp.Body\<close> of a \<^verbatim>\<open>nil\<close> response is a nil-pointer panic, which ends the process.
\<close>

definition tick ::
  "(Proposal list \<Rightarrow> Proposal list) \<Rightarrow> (string \<Rightarrow> Proposal list option) \<Rightarrow>
   (int64 \<Rightarrow> string \<Rightarrow> send_result) \<Rightarrow> State \<Rightarrow> fetched \<Rightarrow> error + State \<times> dispatch list" where
  "tick sorter unmarshal send s f =
     (case f of Fetched resp err \<Rightarrow>
        (case resp of
           None \<Rightarrow> Inl NilPointerPanic
         | Some (Response body read_err) \<Rightarrow>
             (case unmarshal body of
                None \<Rightarrow> Inr (s, [])
              | Some proposals \<Rightarrow> Inr (notify send s (sorter proposals)))))"

subsection \<open>Commands\<close>

text \<open>\<^verbatim>\<open>strings.Split\<close> with a separator of one byte.\<close>

fun split :: "string \<Rightarrow> char \<Rightarrow> string list" where
  "split [] sep = [[]]"
| "split (c # cs) sep =
     (if c = sep then [] # split cs sep
      else case split cs sep of [] \<Rightarrow> [[c]] | w # ws \<Rightarrow> (c # w) # ws)"

definition getHelpMessage :: string where
  "getHelpMessage =
     ''Enter /stop to unsubscribe (/start to resubscribe). '' @
     ''Use /block or /unblock to block or unblock proposals with a certain a topic; '' @
     ''use /blacklist to display the list of blocked topics. '' @
     ''Use /governance_only command to only receive governance proposals.''"

text \<open>
  The body of the loop over updates in \<^verbatim>\<open>main\<close>, for an update that carries a message
  with the text \<open>text\<close> from chat \<open>cid\<close>: the new state and the reply (\<open>None\<close> where the
  loop continues without one).
\<close>

definition handle_message :: "State \<Rightarrow> int64 \<Rightarrow> string \<Rightarrow> State \<times> string option" where
  "handle_message s cid text =
     (let words = split text CHR '' '' in
      case words of
        [] \<Rightarrow> (s, None)
      | cmd # args \<Rightarrow>
          if cmd = ''/start'' then
            (addChatId s cid, Some (''Subscribed.'' @ ''\<newline>\<newline>'' @ getHelpMessage))
          else if cmd = ''/stop'' then
            (removeChatId s cid, Some ''Unsubscribed.'')
          else if cmd = ''/block'' \<or> cmd = ''/unblock'' then
            (if length words \<noteq> 2 then (s, Some ''Please specify one topic'')
             else
               let topic = words ! 1;
                   s1 = (if cmd = ''/block'' then blockTopic s cid topic
                         else unblockTopic s cid topic)
               in (s1, Some (blockedTopics s1 cid)))
          else if cmd = ''/governance_only'' then
            (blockTopic s cid ALL_EXCEPT_GOVERNANCE,
             Some ''From now on, you'll only see the governance proposals.'')
          else if cmd = ''/blacklist'' then
            (s, Some (blockedTopics s cid))
          else (s, Some getHelpMessage))"

subsection \<open>States used as concrete inputs\<close>

definition governance_only_chat :: State where
  "governance_only_chat =
     \<lparr>LastSeenProposal = 0, ChatIds = [(1, Some [(ALL_EXCEPT_GOVERNANCE, True)])]\<rparr>"

definition governance_blocked_chat :: State where
  "governance_blocked_chat =
     \<lparr>LastSeenProposal = 0,
      ChatIds = [(1, Some [(ALL_EXCEPT_GOVERNANCE, True), (TOPIC_GOVERNANCE, True)])]\<rparr>"

definition blocking_X_chat :: State where
  "blocking_X_chat = \<lparr>LastSeenProposal = 0, ChatIds = [(1, Some [(''X'', True)])]\<rparr>"

text \<open>A chat whose blacklist holds the thirty labels 0, 1, ..., 29.\<close>

definition full_chat :: State where
  "full_chat =
     \<lparr>LastSeenProposal = 0, ChatIds = [(1, Some (map (\<lambda>n. (decimal n, True)) [0..<30]))]\<rparr>"

definition mixed_chat :: State where
  "mixed_chat =
     \<lparr>LastSeenProposal = 0,
      ChatIds = [(1, Some [(''b'', True), (ALL_EXCEPT_GOVERNANCE, True), (''a'', True)])]\<rparr>"

definition two_chats :: State where
  "two_chats = \<lparr>LastSeenProposal = 0, ChatIds = [(1, Some []), (2, Some [(''X'', True)])]\<rparr>"

subsection \<open>Proposals used as concrete inputs\<close>

definition long_summary_proposal :: Proposal where
  "long_summary_proposal =
     \<lparr>Title = ''T'', Topic = ''X'', Id_p = 5, Summary = replicate 2047 CHR ''a'', Proposer = 7\<rparr>"

definition short_summary_proposal :: Proposal where
  "short_summary_proposal =
     \<lparr>Title = ''T'', Topic = ''X'', Id_p = 15, Summary = ''hello'', Proposer = 7\<rparr>"



subsection \<open>Collaborators used as concrete inputs\<close>



text \<open>A serialisation of twelve bytes, whatever the state.\<close>

definition marshal_12 :: "State \<Rightarrow> string option" where
  "marshal_12 s = Some ''NEW-SNAPSHOT''"

section \<open>The watermark\<close>

lemma setNewLastSeenId_max:
  "LastSeenProposal (fst (setNewLastSeenId s pid)) = max (LastSeenProposal s) pid"
  by (auto simp: setNewLastSeenId_def max_def)

lemma calls_Cons:
  "setNewLastSeenId_calls s (pid # ids) =
     (fst (setNewLastSeenId_calls (fst (setNewLastSeenId s pid)) ids),
      snd (setNewLastSeenId s pid) # snd (setNewLastSeenId_calls (fst (setNewLastSeenId s pid)) ids))"
  by (simp split: prod.splits)

lemma calls_watermark:
  "LastSeenProposal (fst (setNewLastSeenId_calls s ids)) = Max (insert (LastSeenProposal s) (set ids))"
proof (induction ids arbitrary: s)
  case Nil
  show ?case by simp
next
  case (Cons pid ids)
  have "LastSeenProposal (fst (setNewLastSeenId_calls s (pid # ids)))
      = LastSeenProposal (fst (setNewLastSeenId_calls (fst (setNewLastSeenId s pid)) ids))"
    by (simp add: calls_Cons del: setNewLastSeenId_calls.simps(2))
  also have "\<dots> = Max (insert (max (LastSeenProposal s) pid) (set ids))"
    by (simp add: Cons.IH setNewLastSeenId_max)
  also have "\<dots> = Max (insert (LastSeenProposal s) (set (pid # ids)))"
    by (cases "set ids = {}") (simp_all add: max.assoc)
  finally show ?case .
qed

lemma calls_take_Suc:
  "k < length ids \<Longrightarrow>
   setNewLastSeenId_calls s (take (Suc k) ids) =
     (fst (setNewLastSeenId (fst (setNewLastSeenId_calls s (take k ids))) (ids ! k)),
      snd (setNewLastSeenId_calls s (take k ids)) @
        [snd (setNewLastSeenId (fst (setNewLastSeenId_calls s (take k ids))) (ids ! k))])"
proof (induction ids arbitrary: s k)
  case Nil
  then show ?case by simp
next
  case (Cons pid ids)
  show ?case
  proof (cases k)
    case 0
    then show ?thesis by (simp add: calls_Cons del: setNewLastSeenId_calls.simps(2))
  next
    case (Suc j)
    with Cons.prems have "j < length ids" by simp
    from Cons.IH [OF this, of "fst (setNewLastSeenId s pid)"] Suc
    show ?thesis by (simp add: calls_Cons del: setNewLastSeenId_calls.simps(2))
  qed
qed

lemma calls_length: "length (snd (setNewLastSeenId_calls s ids)) = length ids"
  by (induction ids arbitrary: s) (simp_all add: calls_Cons del: setNewLastSeenId_calls.simps(2))

lemma calls_nth:
  "k < length ids \<Longrightarrow>
   snd (setNewLastSeenId_calls s ids) ! k =
     snd (setNewLastSeenId (fst (setNewLastSeenId_calls s (take k ids))) (ids ! k))"
proof (induction ids arbitrary: s k)
  case Nil
  then show ?case by simp
next
  case (Cons pid ids)
  show ?case
  proof (cases k)
    case 0
    then show ?thesis by (simp add: calls_Cons del: setNewLastSeenId_calls.simps(2))
  next
    case (Suc j)
    with Cons.prems have "j < length ids" by simp
    from Cons.IH [OF this, of "fst (setNewLastSeenId s pid)"] Suc
    show ?thesis by (simp add: calls_Cons del: setNewLastSeenId_calls.simps(2))
  qed
qed

text \<open>
  Claim C3. After any finite sequence of calls of \<^verbatim>\<open>setNewLastSeenId\<close> from a state whose
  watermark is 0, the watermark is the greatest identifier passed (0 for no call). The
  call number \<open>k\<close> returns true exactly when its identifier is strictly greater than the
  watermark left by the \<open>k\<close> calls before it; then the watermark becomes that identifier,
  and otherwise the call leaves the whole state as it was.
\<close>

theorem watermark_is_maximum_of_admitted:
  "LastSeenProposal s = 0 \<Longrightarrow>
     LastSeenProposal (fst (setNewLastSeenId_calls s ids)) = Max (insert 0 (set ids)) \<and>
     length (snd (setNewLastSeenId_calls s ids)) = length ids \<and>
     (\<forall>k < length ids.
        let before = fst (setNewLastSeenId_calls s (take k ids));
            after = fst (setNewLastSeenId_calls s (take (Suc k) ids));
            new = snd (setNewLastSeenId_calls s ids) ! k
        in (new \<longleftrightarrow> LastSeenProposal before < ids ! k) \<and>
           (new \<longrightarrow> LastSeenProposal after = ids ! k) \<and>
           (\<not> new \<longrightarrow> after = before))"
proof (intro conjI allI impI)
  assume "LastSeenProposal s = 0"
  then show "LastSeenProposal (fst (setNewLastSeenId_calls s ids)) = Max (insert 0 (set ids))"
    using calls_watermark [of s ids] by simp
next
  show "length (snd (setNewLastSeenId_calls s ids)) = length ids"
    by (rule calls_length)
next
  fix k
  assume k: "k < length ids"
  show "let before = fst (setNewLastSeenId_calls s (take k ids));
            after = fst (setNewLastSeenId_calls s (take (Suc k) ids));
            new = snd (setNewLastSeenId_calls s ids) ! k
        in (new \<longleftrightarrow> LastSeenProposal before < ids ! k) \<and>
           (new \<longrightarrow> LastSeenProposal after = ids ! k) \<and>
           (\<not> new \<longrightarrow> after = before)"
    unfolding Let_def calls_nth [OF k] calls_take_Suc [OF k]
    by (simp add: setNewLastSeenId_def)
qed

theorem watermark_is_maximum_of_admitted_witness:
  "LastSeenProposal \<lparr>LastSeenProposal = 0, ChatIds = []\<rparr> = 0 \<and>
   setNewLastSeenId_calls \<lparr>LastSeenProposal = 0, ChatIds = []\<rparr> [3, 7, 5, 7] =
     (\<lparr>LastSeenProposal = 7, ChatIds = []\<rparr>, [True, True, False, False]) \<and>
   LastSeenProposal (fst (setNewLastSeenId_calls \<lparr>LastSeenProposal = 0, ChatIds = []\<rparr> [3, 7, 5, 7])) =
     Max (insert 0 (set [3, 7, 5, 7]))"
  using watermark_is_maximum_of_admitted [of "\<lparr>LastSeenProposal = 0, ChatIds = []\<rparr>" "[3, 7, 5, 7]"]
  by (simp add: setNewLastSeenId_def)

section \<open>The registry\<close>

lemma flag_at_update: "flag_at (AList.update k True bl) t = (t = k \<or> flag_at bl t)"
  by (auto simp: flag_at_def update_conv')

lemma flag_at_delete: "flag_at (AList.delete k bl) t = (t \<noteq> k \<and> flag_at bl t)"
  by (auto simp: flag_at_def delete_conv')

lemma range_ChatIds_keys: "x \<in> set (range_ChatIds cs topic) \<Longrightarrow> x \<in> fst ` set cs"
  by (induction cs topic rule: range_ChatIds.induct) (auto split: option.splits if_splits)

lemma mem_range_ChatIds:
  "distinct (map fst cs) \<Longrightarrow>
   cid \<in> set (range_ChatIds cs topic) \<longleftrightarrow>
     (case map_of cs cid of
        Some (Some bl) \<Rightarrow>
          \<not> flag_at bl topic \<and> \<not> (flag_at bl ALL_EXCEPT_GOVERNANCE \<and> topic \<noteq> TOPIC_GOVERNANCE)
      | _ \<Rightarrow> False)"
proof (induction cs topic rule: range_ChatIds.induct)
  case (1 topic)
  show ?case by simp
next
  case (2 c m rest topic)
  from "2.prems" have d: "distinct (map fst rest)" and c: "c \<notin> fst ` set rest" by auto
  have notin: "c \<notin> set (range_ChatIds rest topic)"
    using c range_ChatIds_keys by blast
  show ?case
  proof (cases "cid = c")
    case True
    with notin show ?thesis by (auto split: option.splits)
  next
    case False
    with "2.IH" d show ?thesis by (auto split: option.splits)
  qed
qed

lemma mem_chatIdsForTopic:
  "distinct (map fst (ChatIds s)) \<Longrightarrow>
   cid \<in> set (chatIdsForTopic s topic) \<longleftrightarrow>
     (case ChatIds_at s cid of
        None \<Rightarrow> False
      | Some bl \<Rightarrow>
          \<not> flag_at bl topic \<and> \<not> (flag_at bl ALL_EXCEPT_GOVERNANCE \<and> topic \<noteq> TOPIC_GOVERNANCE))"
  by (simp add: chatIdsForTopic_def ChatIds_at_def mem_range_ChatIds split: option.splits)

lemma ChatIds_at_blockTopic:
  "ChatIds_at (blockTopic s cid topic) c =
     (case ChatIds_at s cid of
        None \<Rightarrow> ChatIds_at s c
      | Some bl \<Rightarrow>
          if c = cid \<and> length topic \<le> MAX_TOPIC_LENGTH \<and> length bl < MAX_BLOCKED_TOPICS
          then Some (AList.update topic True bl) else ChatIds_at s c)"
  by (auto simp: blockTopic_def ChatIds_at_def update_conv' split: option.splits)

lemma ChatIds_at_unblockTopic:
  "ChatIds_at (unblockTopic s cid topic) c =
     (case ChatIds_at s cid of
        None \<Rightarrow> ChatIds_at s c
      | Some bl \<Rightarrow> if c = cid then Some (AList.delete topic bl) else ChatIds_at s c)"
  by (auto simp: unblockTopic_def ChatIds_at_def update_conv' split: option.splits)

lemma distinct_blockTopic:
  "distinct (map fst (ChatIds s)) \<Longrightarrow> distinct (map fst (ChatIds (blockTopic s cid topic)))"
  by (simp add: blockTopic_def distinct_update split: option.splits)

lemma distinct_unblockTopic:
  "distinct (map fst (ChatIds s)) \<Longrightarrow> distinct (map fst (ChatIds (unblockTopic s cid topic)))"
  by (simp add: unblockTopic_def distinct_update split: option.splits)

lemma list_all_update:
  "list_all P al \<Longrightarrow> P (k, v) \<Longrightarrow> list_all P (AList.update k v al)"
  by (induction al) auto

lemma list_all_delete: "list_all P al \<Longrightarrow> list_all P (AList.delete k al)"
  by (induction al) auto

lemma ChatIds_at_mem:
  "ChatIds_at s cid = Some bl \<Longrightarrow> (cid, Some bl) \<in> set (ChatIds s)"
  by (auto simp: ChatIds_at_def split: option.splits dest: map_of_SomeD)

lemma distinct_keys_inner:
  "distinct_keys s \<Longrightarrow> ChatIds_at s cid = Some bl \<Longrightarrow> distinct (map fst bl)"
  by (auto simp: distinct_keys_def list_all_iff dest!: ChatIds_at_mem)

lemma distinct_keys_set_entry:
  "distinct_keys s \<Longrightarrow> distinct (map fst bl) \<Longrightarrow>
   distinct_keys (s\<lparr>ChatIds := AList.update cid (Some bl) (ChatIds s)\<rparr>)"
  by (simp add: distinct_keys_def distinct_update list_all_update)

lemma distinct_keys_blockTopic:
  assumes "distinct_keys s"
  shows "distinct_keys (blockTopic s cid topic)"
proof (cases "ChatIds_at s cid")
  case None
  with assms show ?thesis by (simp add: blockTopic_def)
next
  case (Some bl)
  from assms Some have "distinct (map fst bl)" by (rule distinct_keys_inner)
  then have "distinct (map fst (AList.update topic True bl))" by (simp add: distinct_update)
  with assms have "distinct_keys (s\<lparr>ChatIds := AList.update cid (Some (AList.update topic True bl)) (ChatIds s)\<rparr>)"
    by (rule distinct_keys_set_entry)
  with Some assms show ?thesis by (simp add: blockTopic_def)
qed

lemma distinct_keys_unblockTopic:
  assumes "distinct_keys s"
  shows "distinct_keys (unblockTopic s cid topic)"
proof (cases "ChatIds_at s cid")
  case None
  with assms show ?thesis by (simp add: unblockTopic_def)
next
  case (Some bl)
  from assms Some have "distinct (map fst bl)" by (rule distinct_keys_inner)
  then have "distinct (map fst (AList.delete topic bl))" by (simp add: distinct_delete)
  with assms have "distinct_keys (s\<lparr>ChatIds := AList.update cid (Some (AList.delete topic bl)) (ChatIds s)\<rparr>)"
    by (rule distinct_keys_set_entry)
  with Some show ?thesis by (simp add: unblockTopic_def)
qed

lemma distinct_keys_addChatId: "distinct_keys s \<Longrightarrow> distinct_keys (addChatId s cid)"
  by (auto simp: addChatId_def distinct_keys_def distinct_update intro!: list_all_update)

lemma distinct_keys_removeChatId: "distinct_keys s \<Longrightarrow> distinct_keys (removeChatId s cid)"
  by (auto simp: removeChatId_def distinct_keys_def distinct_delete intro!: list_all_delete)

text \<open>
  The two limits hold along the way: a blacklist within the quota stays within it, and
  the label \<^verbatim>\<open>blockTopic\<close> stores is never longer than the limit.
\<close>

lemma length_update_le: "length (AList.update k v al) \<le> Suc (length al)"
  by (induction al) auto

lemma blockTopic_keeps_quota:
  assumes "ChatIds_at s cid = Some bl" and "length bl \<le> MAX_BLOCKED_TOPICS"
    and "ChatIds_at (blockTopic s cid topic) cid = Some bl'"
  shows "length bl' \<le> MAX_BLOCKED_TOPICS"
proof (cases "length topic \<le> MAX_TOPIC_LENGTH \<and> length bl < MAX_BLOCKED_TOPICS")
  case True
  with assms have "bl' = AList.update topic True bl" by (simp add: ChatIds_at_blockTopic)
  moreover have "length (AList.update topic True bl) \<le> Suc (length bl)" by (rule length_update_le)
  ultimately show ?thesis using True by simp
next
  case False
  with assms have "bl' = bl" by (auto simp: ChatIds_at_blockTopic)
  with assms show ?thesis by simp
qed

lemma blockTopic_stores_short_labels:
  "blockTopic s cid topic \<noteq> s \<Longrightarrow> length topic \<le> MAX_TOPIC_LENGTH"
  by (cases "MAX_TOPIC_LENGTH < length topic") (simp_all add: blockTopic_def)

text \<open>
  Claim C4, amended. For a chat that has a blacklist in which the governance-only label
  \<^verbatim>\<open>AllButGovernance\<close> is set, \<^verbatim>\<open>chatIdsForTopic\<close> returns the chat exactly when the
  topic is \<^verbatim>\<open>Governance\<close> and \<^verbatim>\<open>Governance\<close> is not itself blocked by that chat. A chat
  whose blacklist holds the governance-only label alone is returned for \<^verbatim>\<open>Governance\<close> and
  for no other topic, the empty one included.
\<close>

theorem governance_only_eligibility:
  "distinct (map fst (ChatIds s)) \<Longrightarrow> ChatIds_at s cid = Some bl \<Longrightarrow>
   flag_at bl ALL_EXCEPT_GOVERNANCE \<Longrightarrow>
     (cid \<in> set (chatIdsForTopic s topic) \<longleftrightarrow>
        topic = TOPIC_GOVERNANCE \<and> \<not> flag_at bl TOPIC_GOVERNANCE) \<and>
     (bl = [(ALL_EXCEPT_GOVERNANCE, True)] \<longrightarrow>
        (cid \<in> set (chatIdsForTopic s topic) \<longleftrightarrow> topic = TOPIC_GOVERNANCE))"
  by (auto simp: mem_chatIdsForTopic flag_at_def ALL_EXCEPT_GOVERNANCE_def TOPIC_GOVERNANCE_def)

theorem governance_only_eligibility_witness:
  "distinct (map fst (ChatIds governance_only_chat)) \<and>
   ChatIds_at governance_only_chat 1 = Some [(ALL_EXCEPT_GOVERNANCE, True)] \<and>
   flag_at [(ALL_EXCEPT_GOVERNANCE, True)] ALL_EXCEPT_GOVERNANCE \<and>
   1 \<in> set (chatIdsForTopic governance_only_chat TOPIC_GOVERNANCE) \<and>
   1 \<notin> set (chatIdsForTopic governance_only_chat '''') \<and>
   1 \<notin> set (chatIdsForTopic governance_only_chat ''Network'')"
  using governance_only_eligibility [of governance_only_chat 1 "[(ALL_EXCEPT_GOVERNANCE, True)]" TOPIC_GOVERNANCE]
    governance_only_eligibility [of governance_only_chat 1 "[(ALL_EXCEPT_GOVERNANCE, True)]" "''''"]
    governance_only_eligibility [of governance_only_chat 1 "[(ALL_EXCEPT_GOVERNANCE, True)]" "''Network''"]
  by (simp add: governance_only_chat_def ChatIds_at_def flag_at_def TOPIC_GOVERNANCE_def
      ALL_EXCEPT_GOVERNANCE_def)

text \<open>
  Claim C4 as stated fails: a chat that has both the governance-only label and
  \<^verbatim>\<open>Governance\<close> in its blacklist is not returned for the topic \<^verbatim>\<open>Governance\<close>.
\<close>

theorem governance_only_blocked_governance_counterexample:
  "distinct (map fst (ChatIds governance_blocked_chat)) \<and>
   ChatIds_at governance_blocked_chat 1 = Some [(ALL_EXCEPT_GOVERNANCE, True), (TOPIC_GOVERNANCE, True)] \<and>
   flag_at [(ALL_EXCEPT_GOVERNANCE, True), (TOPIC_GOVERNANCE, True)] ALL_EXCEPT_GOVERNANCE \<and>
   \<not> (1 \<in> set (chatIdsForTopic governance_blocked_chat TOPIC_GOVERNANCE) \<longleftrightarrow>
        TOPIC_GOVERNANCE = TOPIC_GOVERNANCE)"
  by (simp add: governance_blocked_chat_def ChatIds_at_def flag_at_def chatIdsForTopic_def
      TOPIC_GOVERNANCE_def ALL_EXCEPT_GOVERNANCE_def)

lemma flag_at_block_unblock:
  "\<not> flag_at bl label \<Longrightarrow>
   flag_at (AList.delete label (AList.update label True bl)) t = flag_at bl t \<and>
   flag_at (AList.delete label bl) t = flag_at bl t"
  by (auto simp: flag_at_update flag_at_delete)

text \<open>
  Claim C6, amended. For a subscribed chat whose blacklist does not already block the
  label, \<^verbatim>\<open>blockTopic\<close> followed by \<^verbatim>\<open>unblockTopic\<close> with that label leaves
  \<^verbatim>\<open>chatIdsForTopic\<close> returning the same chats as before, for every topic.
\<close>

theorem block_then_unblock_restores_eligibility:
  assumes d: "distinct (map fst (ChatIds s))"
    and sub: "ChatIds_at s cid = Some bl"
    and free: "\<not> flag_at bl label"
  shows "set (chatIdsForTopic (unblockTopic (blockTopic s cid label) cid label) topic) =
         set (chatIdsForTopic s topic)"
proof -
  let ?s1 = "blockTopic s cid label"
  let ?s2 = "unblockTopic ?s1 cid label"
  have d2: "distinct (map fst (ChatIds ?s2))"
    using d by (intro distinct_unblockTopic distinct_blockTopic)
  have other: "ChatIds_at ?s2 c = ChatIds_at s c" if "c \<noteq> cid" for c
    using that sub by (simp add: ChatIds_at_unblockTopic ChatIds_at_blockTopic split: option.splits)
  obtain bl2 where at2: "ChatIds_at ?s2 cid = Some bl2" and same: "\<And>t. flag_at bl2 t = flag_at bl t"
    using sub flag_at_block_unblock [OF free]
    by (cases "length label \<le> MAX_TOPIC_LENGTH \<and> length bl < MAX_BLOCKED_TOPICS")
      (simp_all add: ChatIds_at_unblockTopic ChatIds_at_blockTopic)
  have "c \<in> set (chatIdsForTopic ?s2 topic) \<longleftrightarrow> c \<in> set (chatIdsForTopic s topic)" for c
  proof (cases "c = cid")
    case True
    then show ?thesis
      by (simp add: mem_chatIdsForTopic [OF d] mem_chatIdsForTopic [OF d2] at2 sub same)
  next
    case False
    then show ?thesis
      by (simp add: mem_chatIdsForTopic [OF d] mem_chatIdsForTopic [OF d2] other)
  qed
  then show ?thesis by blast
qed

theorem block_then_unblock_restores_eligibility_witness:
  "distinct (map fst (ChatIds blocking_X_chat)) \<and>
   ChatIds_at blocking_X_chat 1 = Some [(''X'', True)] \<and>
   \<not> flag_at [(''X'', True)] ''Y'' \<and>
   set (chatIdsForTopic (unblockTopic (blockTopic blocking_X_chat 1 ''Y'') 1 ''Y'') ''Y'') = {1} \<and>
   set (chatIdsForTopic blocking_X_chat ''Y'') = {1}"
  using block_then_unblock_restores_eligibility [of blocking_X_chat 1 "[(''X'', True)]" "''Y''" "''Y''"]
  by (simp add: blocking_X_chat_def ChatIds_at_def flag_at_def chatIdsForTopic_def
      ALL_EXCEPT_GOVERNANCE_def)

text \<open>
  Claim C6 as stated fails for a label that is blocked already: the chat was not returned
  for \<^verbatim>\<open>X\<close> before the two calls and is returned for it after them.
\<close>

theorem block_then_unblock_counterexample:
  "\<not> (1 \<in> set (chatIdsForTopic (unblockTopic (blockTopic blocking_X_chat 1 ''X'') 1 ''X'') ''X'') \<longleftrightarrow>
       1 \<in> set (chatIdsForTopic blocking_X_chat ''X''))"
  by (simp add: blocking_X_chat_def ChatIds_at_def flag_at_def chatIdsForTopic_def
      blockTopic_def unblockTopic_def MAX_TOPIC_LENGTH_def MAX_BLOCKED_TOPICS_def
      ALL_EXCEPT_GOVERNANCE_def)

lemma split_no_sep: "sep \<notin> set w \<Longrightarrow> split w sep = [w]"
  by (induction w) auto

lemma split_block_command:
  "CHR '' '' \<notin> set topic \<Longrightarrow> split (''/block '' @ topic) CHR '' '' = [''/block'', topic]"
  by (simp add: split_no_sep)

lemma handle_block:
  "CHR '' '' \<notin> set topic \<Longrightarrow>
   handle_message s cid (''/block '' @ topic) =
     (blockTopic s cid topic, Some (blockedTopics (blockTopic s cid topic) cid))"
  unfolding handle_message_def split_block_command by (simp add: Let_def)

text \<open>
  Claim C7. \<^verbatim>\<open>blockTopic\<close> leaves the state as it is for a label longer than 50 bytes
  (hence for every label longer than 50 characters), whatever the chat's blacklist, and
  for every label once the chat's blacklist has 30 entries or more. It returns no error:
  the reply to a \<^verbatim>\<open>/block\<close> command that changed nothing is the unchanged listing.
\<close>

theorem blockTopic_drops_violating_additions:
  "(length topic > MAX_TOPIC_LENGTH \<longrightarrow> blockTopic s cid topic = s) \<and>
   (ChatIds_at s cid = Some bl \<and> length bl \<ge> MAX_BLOCKED_TOPICS \<longrightarrow> blockTopic s cid topic = s) \<and>
   (blockTopic s cid topic = s \<and> CHR '' '' \<notin> set topic \<longrightarrow>
      handle_message s cid (''/block '' @ topic) = (s, Some (blockedTopics s cid)))"
proof (intro conjI impI)
  assume "length topic > MAX_TOPIC_LENGTH"
  then show "blockTopic s cid topic = s" by (simp add: blockTopic_def)
next
  assume "ChatIds_at s cid = Some bl \<and> length bl \<ge> MAX_BLOCKED_TOPICS"
  then show "blockTopic s cid topic = s" by (simp add: blockTopic_def)
next
  assume "blockTopic s cid topic = s \<and> CHR '' '' \<notin> set topic"
  then show "handle_message s cid (''/block '' @ topic) = (s, Some (blockedTopics s cid))"
    using handle_block [of topic s cid] by simp
qed

theorem blockTopic_drops_violating_additions_witness:
  "length (replicate 51 CHR ''a'') > MAX_TOPIC_LENGTH \<and>
   blockTopic blocking_X_chat 1 (replicate 51 CHR ''a'') = blocking_X_chat \<and>
   ChatIds_at full_chat 1 = Some (map (\<lambda>n. (decimal n, True)) [0..<30]) \<and>
   length (map (\<lambda>n. (decimal n, True)) [0..<30]) \<ge> MAX_BLOCKED_TOPICS \<and>
   blockTopic full_chat 1 ''Spam'' = full_chat \<and>
   CHR '' '' \<notin> set ''Spam'' \<and>
   handle_message full_chat 1 ''/block Spam'' = (full_chat, Some (blockedTopics full_chat 1))"
  using blockTopic_drops_violating_additions [of "replicate 51 CHR ''a''" blocking_X_chat 1 "[]"]
    blockTopic_drops_violating_additions [of "''Spam''" full_chat 1 "map (\<lambda>n. (decimal n, True)) [0..<30]"]
  by (simp add: MAX_TOPIC_LENGTH_def MAX_BLOCKED_TOPICS_def full_chat_def ChatIds_at_def)

lemma enabled_topics_filter: "enabled_topics m = map fst (filter snd m)"
  by (induction m rule: enabled_topics.induct) simp_all

lemma flag_at_enabled: "flag_at m topic \<Longrightarrow> topic \<in> set (enabled_topics m)"
  by (induction m rule: enabled_topics.induct) (auto simp: flag_at_def split: if_splits)

text \<open>
  Claim C8, amended. \<^verbatim>\<open>blockedTopics\<close> returns the fixed sentence
  \<^verbatim>\<open>Your list of blocked topics is empty.\<close> for a chat without a blacklist or with an
  empty one. For a chat with a non-empty blacklist it returns
  \<^verbatim>\<open>You've blocked these topics: \<close>, then the labels of the blacklist that are enabled,
  in the order the map is visited (which Go leaves unspecified: the labels are not
  sorted) and joined by a comma and a space, then a full stop; the label
  \<^verbatim>\<open>AllButGovernance\<close> is listed like every other label. The two outputs differ.
\<close>

theorem blockedTopics_lists_enabled_labels:
  "(ChatIds_at s cid = None \<or> ChatIds_at s cid = Some [] \<longrightarrow>
      blockedTopics s cid = ''Your list of blocked topics is empty.'') \<and>
   (ChatIds_at s cid = Some m \<and> m \<noteq> [] \<longrightarrow>
      blockedTopics s cid =
        ''You've blocked these topics: '' @ join (map fst (filter snd m)) '', '' @ ''.'' \<and>
      blockedTopics s cid \<noteq> ''Your list of blocked topics is empty.'')"
  by (auto simp: blockedTopics_def enabled_topics_filter)

theorem blockedTopics_lists_enabled_labels_witness:
  "ChatIds_at mixed_chat 1 = Some [(''b'', True), (ALL_EXCEPT_GOVERNANCE, True), (''a'', True)] \<and>
   [(''b'', True), (ALL_EXCEPT_GOVERNANCE, True), (''a'', True)] \<noteq> [] \<and>
   blockedTopics mixed_chat 1 = ''You've blocked these topics: b, AllButGovernance, a.'' \<and>
   ChatIds_at mixed_chat 2 = None \<and>
   blockedTopics mixed_chat 2 = ''Your list of blocked topics is empty.''"
  using blockedTopics_lists_enabled_labels [of mixed_chat 1 "[(''b'', True), (ALL_EXCEPT_GOVERNANCE, True), (''a'', True)]"]
    blockedTopics_lists_enabled_labels [of mixed_chat 2 "[]"]
  by (simp add: mixed_chat_def ChatIds_at_def ALL_EXCEPT_GOVERNANCE_def)

text \<open>
  Claim C8 as stated fails: the listing of a chat whose map is visited in the order
  \<^verbatim>\<open>b\<close>, \<^verbatim>\<open>AllButGovernance\<close>, \<^verbatim>\<open>a\<close> is not sorted, and it shows the governance-only
  label among the topics, written like them.
\<close>

theorem blockedTopics_unsorted_with_sentinel_counterexample:
  "blockedTopics mixed_chat 1 = ''You've blocked these topics: b, AllButGovernance, a.'' \<and>
   \<not> sorted (enabled_topics [(''b'', True), (ALL_EXCEPT_GOVERNANCE, True), (''a'', True)]) \<and>
   ALL_EXCEPT_GOVERNANCE \<in>
     set (enabled_topics [(''b'', True), (ALL_EXCEPT_GOVERNANCE, True), (''a'', True)])"
  by (simp add: mixed_chat_def ChatIds_at_def blockedTopics_def ALL_EXCEPT_GOVERNANCE_def)

text \<open>
  Claim C10. The governance-only modifier is the entry \<^verbatim>\<open>AllButGovernance\<close> of the chat's
  blacklist. For a subscribed chat: \<^verbatim>\<open>blockTopic\<close> with that label stores it like any
  label when the blacklist has fewer than 30 entries, after which the chat is returned for
  no topic but \<^verbatim>\<open>Governance\<close>, and changes nothing when the blacklist has 30 entries or
  more; after \<^verbatim>\<open>unblockTopic\<close> with that label the chat is returned for every topic it
  does not block (and for the topic \<^verbatim>\<open>AllButGovernance\<close>); while the label is set,
  \<^verbatim>\<open>blockedTopics\<close> lists it among the blocked topics, and the chat is returned for no
  topic but \<^verbatim>\<open>Governance\<close>, so blocking the topic named \<^verbatim>\<open>AllButGovernance\<close> is the
  governance-only mode. The command \<^verbatim>\<open>/governance_only\<close> is that \<^verbatim>\<open>blockTopic\<close> call.
\<close>

theorem governance_only_is_a_blocked_label:
  "distinct (map fst (ChatIds s)) \<Longrightarrow> ChatIds_at s cid = Some bl \<Longrightarrow>
   (length bl < MAX_BLOCKED_TOPICS \<longrightarrow>
      ChatIds_at (blockTopic s cid ALL_EXCEPT_GOVERNANCE) cid =
        Some (AList.update ALL_EXCEPT_GOVERNANCE True bl) \<and>
      (topic \<noteq> TOPIC_GOVERNANCE \<longrightarrow>
         cid \<notin> set (chatIdsForTopic (blockTopic s cid ALL_EXCEPT_GOVERNANCE) topic))) \<and>
   (length bl \<ge> MAX_BLOCKED_TOPICS \<longrightarrow> blockTopic s cid ALL_EXCEPT_GOVERNANCE = s) \<and>
   (cid \<in> set (chatIdsForTopic (unblockTopic s cid ALL_EXCEPT_GOVERNANCE) topic) \<longleftrightarrow>
      topic = ALL_EXCEPT_GOVERNANCE \<or> \<not> flag_at bl topic) \<and>
   (flag_at bl ALL_EXCEPT_GOVERNANCE \<longrightarrow>
      ALL_EXCEPT_GOVERNANCE \<in> set (enabled_topics bl) \<and>
      blockedTopics s cid =
        ''You've blocked these topics: '' @ join (enabled_topics bl) '', '' @ ''.'' \<and>
      (topic \<noteq> TOPIC_GOVERNANCE \<longrightarrow> cid \<notin> set (chatIdsForTopic s topic))) \<and>
   handle_message s cid ''/governance_only'' =
     (blockTopic s cid ALL_EXCEPT_GOVERNANCE,
      Some ''From now on, you'll only see the governance proposals.'')"
proof (intro conjI impI)
  assume d: "distinct (map fst (ChatIds s))" and sub: "ChatIds_at s cid = Some bl"
  let ?s1 = "blockTopic s cid ALL_EXCEPT_GOVERNANCE"
  have len: "length ALL_EXCEPT_GOVERNANCE \<le> MAX_TOPIC_LENGTH"
    by (simp add: ALL_EXCEPT_GOVERNANCE_def MAX_TOPIC_LENGTH_def)
  have d1: "distinct (map fst (ChatIds ?s1))" using d by (rule distinct_blockTopic)
  {
    assume room: "length bl < MAX_BLOCKED_TOPICS"
    then show at1: "ChatIds_at ?s1 cid = Some (AList.update ALL_EXCEPT_GOVERNANCE True bl)"
      using sub len by (simp add: ChatIds_at_blockTopic)
    assume "topic \<noteq> TOPIC_GOVERNANCE"
    then show "cid \<notin> set (chatIdsForTopic ?s1 topic)"
      by (simp add: mem_chatIdsForTopic [OF d1] at1 flag_at_update)
  }
  {
    assume "length bl \<ge> MAX_BLOCKED_TOPICS"
    then show "?s1 = s" using sub by (simp add: blockTopic_def)
  }
  have d2: "distinct (map fst (ChatIds (unblockTopic s cid ALL_EXCEPT_GOVERNANCE)))"
    using d by (rule distinct_unblockTopic)
  show "cid \<in> set (chatIdsForTopic (unblockTopic s cid ALL_EXCEPT_GOVERNANCE) topic) \<longleftrightarrow>
      topic = ALL_EXCEPT_GOVERNANCE \<or> \<not> flag_at bl topic"
    using sub by (auto simp: mem_chatIdsForTopic [OF d2] ChatIds_at_unblockTopic flag_at_delete)
  {
    assume flag: "flag_at bl ALL_EXCEPT_GOVERNANCE"
    then show "ALL_EXCEPT_GOVERNANCE \<in> set (enabled_topics bl)" by (rule flag_at_enabled)
    from flag have "bl \<noteq> []" by (auto simp: flag_at_def)
    then show "blockedTopics s cid =
        ''You've blocked these topics: '' @ join (enabled_topics bl) '', '' @ ''.''"
      using sub by (simp add: blockedTopics_def)
    assume "topic \<noteq> TOPIC_GOVERNANCE"
    then show "cid \<notin> set (chatIdsForTopic s topic)"
      using flag sub by (simp add: mem_chatIdsForTopic [OF d])
  }
  show "handle_message s cid ''/governance_only'' =
     (blockTopic s cid ALL_EXCEPT_GOVERNANCE,
      Some ''From now on, you'll only see the governance proposals.'')"
    by (simp add: handle_message_def)
qed

theorem governance_only_is_a_blocked_label_witness:
  "distinct (map fst (ChatIds blocking_X_chat)) \<and>
   ChatIds_at blocking_X_chat 1 = Some [(''X'', True)] \<and>
   length [(''X'', True :: bool)] < MAX_BLOCKED_TOPICS \<and>
   ''Network'' \<noteq> TOPIC_GOVERNANCE \<and>
   1 \<in> set (chatIdsForTopic blocking_X_chat ''Network'') \<and>
   1 \<notin> set (chatIdsForTopic (blockTopic blocking_X_chat 1 ALL_EXCEPT_GOVERNANCE) ''Network'') \<and>
   distinct (map fst (ChatIds full_chat)) \<and>
   ChatIds_at full_chat 1 = Some (map (\<lambda>n. (decimal n, True)) [0..<30]) \<and>
   length (map (\<lambda>n. (decimal n, True)) [0..<30]) \<ge> MAX_BLOCKED_TOPICS \<and>
   blockTopic full_chat 1 ALL_EXCEPT_GOVERNANCE = full_chat \<and>
   distinct (map fst (ChatIds governance_only_chat)) \<and>
   ChatIds_at governance_only_chat 1 = Some [(ALL_EXCEPT_GOVERNANCE, True)] \<and>
   flag_at [(ALL_EXCEPT_GOVERNANCE, True)] ALL_EXCEPT_GOVERNANCE \<and>
   blockedTopics governance_only_chat 1 = ''You've blocked these topics: AllButGovernance.'' \<and>
   1 \<notin> set (chatIdsForTopic governance_only_chat ''Network'') \<and>
   1 \<in> set (chatIdsForTopic (unblockTopic governance_only_chat 1 ALL_EXCEPT_GOVERNANCE) ''Network'')"
  using governance_only_is_a_blocked_label [of blocking_X_chat 1 "[(''X'', True)]" "''Network''"]
    governance_only_is_a_blocked_label [of full_chat 1 "map (\<lambda>n. (decimal n, True)) [0..<30]" "''Network''"]
    governance_only_is_a_blocked_label [of governance_only_chat 1 "[(ALL_EXCEPT_GOVERNANCE, True)]" "''Network''"]
  by (simp add: blocking_X_chat_def full_chat_def governance_only_chat_def ChatIds_at_def
      flag_at_def chatIdsForTopic_def MAX_BLOCKED_TOPICS_def TOPIC_GOVERNANCE_def
      ALL_EXCEPT_GOVERNANCE_def)

section \<open>The message of a proposal\<close>

text \<open>
  Claim C9, amended. The message of a dispatched proposal holds the summary unchanged
  (between two line breaks, and nothing for an empty summary) when the length of the
  summary plus 2 does not exceed \<^verbatim>\<open>MAX_SUMMARY_LENGTH\<close>, that is up to 2046 bytes, and
  holds the notice \<^verbatim>\<open>[Proposal summary is too long.]\<close> in its place exactly when the
  length plus 2 exceeds it, that is from 2047 bytes on.
\<close>

theorem message_summary_or_notice:
  "(length (Summary p) + 2 \<le> MAX_SUMMARY_LENGTH \<longrightarrow>
      message_text p =
        ''<b>'' @ Title p @ ''</b>\<newline>\<newline>Proposer: '' @ decimal (unat (Proposer p)) @ ''\<newline>'' @
        (if Summary p = [] then [] else ''\<newline>'' @ Summary p @ ''\<newline>'') @
        ''\<newline>#'' @ Topic p @ ''\<newline>\<newline>https://nns.ic0.app/proposal/?proposal='' @
        decimal (unat (Id_p p))) \<and>
   (length (Summary p) + 2 > MAX_SUMMARY_LENGTH \<longrightarrow>
      message_text p =
        ''<b>'' @ Title p @ ''</b>\<newline>\<newline>Proposer: '' @ decimal (unat (Proposer p)) @ ''\<newline>'' @
        ''\<newline>[Proposal summary is too long.]\<newline>'' @
        ''\<newline>#'' @ Topic p @ ''\<newline>\<newline>https://nns.ic0.app/proposal/?proposal='' @
        decimal (unat (Id_p p)))"
  by (simp add: message_text_def summary_block_def)

theorem message_summary_or_notice_witness:
  "length (Summary short_summary_proposal) + 2 \<le> MAX_SUMMARY_LENGTH \<and>
   message_text short_summary_proposal =
     ''<b>T</b>\<newline>\<newline>Proposer: 7\<newline>\<newline>hello\<newline>\<newline>#X\<newline>\<newline>https://nns.ic0.app/proposal/?proposal=15'' \<and>
   length (Summary long_summary_proposal) + 2 > MAX_SUMMARY_LENGTH \<and>
   message_text long_summary_proposal =
     ''<b>T</b>\<newline>\<newline>Proposer: 7\<newline>\<newline>[Proposal summary is too long.]\<newline>\<newline>#X\<newline>\<newline>https://nns.ic0.app/proposal/?proposal=5''"
  using message_summary_or_notice [of short_summary_proposal]
    message_summary_or_notice [of long_summary_proposal]
  by (simp add: short_summary_proposal_def long_summary_proposal_def MAX_SUMMARY_LENGTH_def
      digit_def)

text \<open>
  Claim C9 as stated fails: a summary of 2047 bytes does not exceed the maximum of 2048,
  and the message holds the notice in its place.
\<close>

theorem summary_within_maximum_replaced_counterexample:
  "length (Summary long_summary_proposal) \<le> MAX_SUMMARY_LENGTH \<and>
   message_text long_summary_proposal =
     ''<b>T</b>\<newline>\<newline>Proposer: 7\<newline>\<newline>[Proposal summary is too long.]\<newline>\<newline>#X\<newline>\<newline>https://nns.ic0.app/proposal/?proposal=5''"
  by (simp add: long_summary_proposal_def MAX_SUMMARY_LENGTH_def message_text_def
      summary_block_def digit_def)

section \<open>The feed poller\<close>











text \<open>A body that does not decode ends the tick with the state as it was.\<close>

lemma tick_unparsable_body:
  "unmarshal body = None \<Longrightarrow>
   tick sorter unmarshal send s (Fetched (Some (Response body read_err)) get_err) = Inr (s, [])"
  by (simp add: tick_def)

text \<open>
  Claim C2 fails on the code. When \<^verbatim>\<open>http.Get\<close> fails it returns a \<^verbatim>\<open>nil\<close> response; the
  source logs the error and goes on to read \<^verbatim>\<open>resp.Body\<close>, which panics: the tick does
  not end with the state as it was, the process ends. The sibling branch for a body that
  does not decode has the \<^verbatim>\<open>continue\<close> this branch lacks.
\<close>

theorem tick_failed_fetch_panics:
  "tick sorter unmarshal send s (Fetched None get_err) = Inl NilPointerPanic"
  by (simp add: tick_def)

section \<open>Persistence\<close>

text \<open>A failure to create the temporary file ends the process, through \<^verbatim>\<open>log.Fatal\<close>.\<close>

lemma persist_no_temporary_file:
  "marshal s = Some data \<Longrightarrow> persist marshal None w renamed s fs = Inl LogFatal"
  by (simp add: persist_def)

lemma persist_write_error:
  "marshal s = Some data \<Longrightarrow>
   persist marshal (Some tmpFile) (WriteError n) True s fs =
     Inr ((fs(tmpFile := None))(STATE_PATH \<mapsto> take n data))"
  by (simp add: persist_def Let_def)

text \<open>
  Claim C1 fails on the code. When \<^verbatim>\<open>os.WriteFile\<close> fails after 3 of the 12 bytes, the
  source logs the error and goes on to \<^verbatim>\<open>os.Rename\<close>: the snapshot path then holds the
  3 bytes, neither the previous snapshot nor the new one. The branch for a serialisation
  error has the \<^verbatim>\<open>return\<close> this branch lacks.
\<close>

theorem persist_renames_partial_write:
  "(case persist marshal_12 (Some ''state.json_tmp_1'') (WriteError 3) True two_chats
          [STATE_PATH \<mapsto> ''OLD-SNAPSHOT''] of
      Inl e \<Rightarrow> None
    | Inr fs \<Rightarrow> fs STATE_PATH) = Some ''NEW''"
  by (simp add: persist_def marshal_12_def STATE_PATH_def)

end
